theory Spec2Isabelle
  imports Complex_Main "HOL-Library.Word" "HOL-Library.Log_Nat"
begin

unbundle bit_operations_syntax

section \<open>Machine types of the target (Teensy 3.2, 32-bit ARM)\<close>

type_synonym uint8_t = "8 word"
type_synonym uint16_t = "16 word"
type_synonym int16_t = "16 word"
type_synonym c_int = "32 word"
type_synonym c_uint = "32 word"

text \<open>
  A word carries no sign. The signed types \<open>int16_t\<close> and \<open>int\<close> are words read
  with \<open>sint\<close>, widened with \<open>scast\<close> and shifted right with \<open>signed_drop_bit\<close>;
  the unsigned ones are read with \<open>uint\<close>, widened with \<open>ucast\<close> and shifted right with
  \<open>drop_bit\<close>.
\<close>

section \<open>The board: pins, the SPI link and the log of what the driver did to them\<close>

datatype level = LOW | HIGH

datatype pinmode = INPUT | OUTPUT

datatype bitorder = LSBFIRST | MSBFIRST

datatype spimode = SPI_MODE0 | SPI_MODE1 | SPI_MODE2 | SPI_MODE3

text \<open>
  Every call of the Arduino core and of the SPI library that the driver makes is one
  event, with the value of its arguments at the call; a byte exchange also records the
  byte that came back.
\<close>

datatype event =
    PinMode c_int pinmode
  | DigitalWrite c_int level
  | DelayMicroseconds c_uint
  | Delay c_uint
  | SpiBegin
  | SpiBeginTransaction c_uint bitorder spimode
  | SpiEnd
  | Transfer uint8_t uint8_t

text \<open>
  The device at the other end of the link is not part of the repository. It is a
  parameter: any machine \<open>xfer\<close> that, in a state of type \<open>'l\<close>, takes the byte
  clocked out and gives the byte clocked in and its next state. The world is the state of
  that machine and the log of events so far, oldest first.
\<close>

type_synonym 'l spi = "'l \<Rightarrow> uint8_t \<Rightarrow> uint8_t \<times> 'l"

record 'l world =
  link :: 'l
  log :: "event list"

definition emit :: "event \<Rightarrow> 'l world \<Rightarrow> 'l world" where
  "emit e w = w\<lparr>log := log w @ [e]\<rparr>"

definition pinMode :: "c_int \<Rightarrow> pinmode \<Rightarrow> 'l world \<Rightarrow> 'l world" where
  "pinMode pin m w = emit (PinMode pin m) w"

definition digitalWrite :: "c_int \<Rightarrow> level \<Rightarrow> 'l world \<Rightarrow> 'l world" where
  "digitalWrite pin v w = emit (DigitalWrite pin v) w"

definition delayMicroseconds :: "c_uint \<Rightarrow> 'l world \<Rightarrow> 'l world" where
  "delayMicroseconds us w = emit (DelayMicroseconds us) w"

definition delay :: "c_uint \<Rightarrow> 'l world \<Rightarrow> 'l world" where
  "delay ms w = emit (Delay ms) w"

definition SPI_begin :: "'l world \<Rightarrow> 'l world" where
  "SPI_begin w = emit SpiBegin w"

definition SPI_beginTransaction :: "c_uint \<Rightarrow> bitorder \<Rightarrow> spimode \<Rightarrow> 'l world \<Rightarrow> 'l world" where
  "SPI_beginTransaction clock order m w = emit (SpiBeginTransaction clock order m) w"

definition SPI_end :: "'l world \<Rightarrow> 'l world" where
  "SPI_end w = emit SpiEnd w"

definition SPI_transfer :: "'l spi \<Rightarrow> uint8_t \<Rightarrow> 'l world \<Rightarrow> uint8_t \<times> 'l world" where
  "SPI_transfer xfer tx w =
     (let (rx, l) = xfer (link w) tx
      in (rx, w\<lparr>link := l, log := log w @ [Transfer tx rx]\<rparr>))"

section \<open>The register map (ADIS16490.h)\<close>

definition PAGE_ID :: uint16_t where "PAGE_ID = 0x0000"
definition DIAG_STS :: uint16_t where "DIAG_STS = 0x000A"
definition TEMP_OUT :: uint16_t where "TEMP_OUT = 0x000E"
definition X_GYRO_OUT :: uint16_t where "X_GYRO_OUT = 0x0012"
definition Y_GYRO_OUT :: uint16_t where "Y_GYRO_OUT = 0x0016"
definition Z_GYRO_OUT :: uint16_t where "Z_GYRO_OUT = 0x001A"
definition X_ACCL_OUT :: uint16_t where "X_ACCL_OUT = 0x001E"
definition Y_ACCL_OUT :: uint16_t where "Y_ACCL_OUT = 0x0022"
definition Z_ACCL_OUT :: uint16_t where "Z_ACCL_OUT = 0x0026"
definition FNCTIO_CTRL :: uint16_t where "FNCTIO_CTRL = 0x0306"
definition DEC_RATE :: uint16_t where "DEC_RATE = 0x030C"

section \<open>The class ADIS16490\<close>

text \<open>
  The private members \<open>_CS\<close>, \<open>_DR\<close>, \<open>_RST\<close>, \<open>_stall\<close> and \<open>currentPage\<close> of the
  header, all of C type \<open>int\<close>. An Isabelle name cannot start with an underscore, so
  the first four are \<open>pin_CS\<close>, \<open>pin_DR\<close>, \<open>pin_RST\<close> and \<open>stall\<close>.
\<close>

record ADIS16490 =
  pin_CS :: c_int
  pin_DR :: c_int
  pin_RST :: c_int
  stall :: c_int
  currentPage :: c_int

text \<open>\<open>int ADIS16490::configSPI()\<close>\<close>

definition configSPI :: "ADIS16490 \<times> 'l world \<Rightarrow> c_int \<times> ADIS16490 \<times> 'l world" where
  "configSPI = (\<lambda>(this, w).
     (let w = SPI_beginTransaction 2000000 MSBFIRST SPI_MODE3 w
      in (1, this, w)))"

text \<open>
  \<open>ADIS16490::ADIS16490(int CS, int DR, int RST)\<close>; \<open>_stall\<close> and \<open>currentPage\<close> have
  the default member initialisers 5 and 0x00 of the header.
\<close>

definition constructor :: "c_int \<Rightarrow> c_int \<Rightarrow> c_int \<Rightarrow> 'l world \<Rightarrow> ADIS16490 \<times> 'l world" where
  "constructor cs dr rst w =
     (let this = \<lparr>pin_CS = cs, pin_DR = dr, pin_RST = rst, stall = 5, currentPage = 0x00\<rparr>;
          w = SPI_begin w;
          (_, this, w) = configSPI (this, w);
          w = pinMode (pin_CS this) OUTPUT w;
          w = pinMode (pin_DR this) INPUT w;
          w = pinMode (pin_RST this) OUTPUT w;
          w = digitalWrite (pin_CS this) HIGH w;
          w = digitalWrite (pin_RST this) HIGH w
      in (this, w))"

text \<open>\<open>int ADIS16490::resetDUT(uint8_t ms)\<close>\<close>

definition resetDUT :: "uint8_t \<Rightarrow> ADIS16490 \<times> 'l world \<Rightarrow> c_int \<times> ADIS16490 \<times> 'l world" where
  "resetDUT ms = (\<lambda>(this, w).
     (let w = digitalWrite (pin_RST this) LOW w;
          w = delayMicroseconds 500 w;
          w = digitalWrite (pin_RST this) HIGH w;
          w = delay (ucast ms) w
      in (1, this, w)))"

text \<open>
  The expression \<open>(hi << 8) | (lo & 0xFF)\<close> on two bytes promoted to \<open>int\<close>, converted
  to a 16-bit integer: line 122 of \<open>regRead\<close> and lines 284 to 292 of \<open>sensorRead\<close>.
\<close>

definition join_bytes :: "uint8_t \<Rightarrow> uint8_t \<Rightarrow> uint16_t" where
  "join_bytes hi lo =
     ucast (push_bit 8 (ucast hi :: c_int) OR ((ucast lo :: c_int) AND 0xFF))"

text \<open>
  \<open>int16_t ADIS16490::regRead(uint16_t regAddr)\<close>. The two calls of \<open>SPI.transfer\<close>
  in line 122 are taken in the order they are written.
\<close>

definition regRead :: "'l spi \<Rightarrow> uint16_t \<Rightarrow> ADIS16490 \<times> 'l world \<Rightarrow> int16_t \<times> ADIS16490 \<times> 'l world" where
  "regRead xfer regAddr = (\<lambda>(this, w).
     (let page = (ucast (drop_bit 8 (ucast regAddr :: c_int) AND 0xFF) :: uint8_t);
          address = (ucast ((ucast regAddr :: c_int) AND 0xFF) :: uint8_t);
          (this, w) =
            (if currentPage this \<noteq> ucast page then
               (let w = digitalWrite (pin_CS this) LOW w;
                    (_, w) = SPI_transfer xfer 0x80 w;
                    (_, w) = SPI_transfer xfer page w;
                    w = digitalWrite (pin_CS this) HIGH w;
                    this = this\<lparr>currentPage := ucast page\<rparr>;
                    w = delayMicroseconds (ucast (stall this)) w
                in (this, w))
             else (this, w));
          w = digitalWrite (pin_CS this) LOW w;
          (_, w) = SPI_transfer xfer address w;
          (_, w) = SPI_transfer xfer 0x00 w;
          w = digitalWrite (pin_CS this) HIGH w;
          w = delayMicroseconds (ucast (stall this)) w;
          w = digitalWrite (pin_CS this) LOW w;
          (hi, w) = SPI_transfer xfer 0x00 w;
          (lo, w) = SPI_transfer xfer 0x00 w;
          dataOut = join_bytes hi lo;
          w = digitalWrite (pin_CS this) HIGH w;
          w = delayMicroseconds (ucast (stall this)) w
      in (ucast dataOut, this, w)))"

text \<open>\<open>int ADIS16490::regWrite(uint16_t regAddr, int16_t regData)\<close>\<close>

definition regWrite :: "'l spi \<Rightarrow> uint16_t \<Rightarrow> int16_t \<Rightarrow> ADIS16490 \<times> 'l world \<Rightarrow> c_int \<times> ADIS16490 \<times> 'l world" where
  "regWrite xfer regAddr regData = (\<lambda>(this, w).
     (let page = (ucast (drop_bit 8 (ucast regAddr :: c_int) AND 0xFF) :: uint8_t);
          address = (ucast ((ucast regAddr :: c_int) AND 0xFF) :: uint8_t);
          (this, w) =
            (if currentPage this \<noteq> ucast page then
               (let w = digitalWrite (pin_CS this) LOW w;
                    (_, w) = SPI_transfer xfer 0x80 w;
                    (_, w) = SPI_transfer xfer page w;
                    w = digitalWrite (pin_CS this) HIGH w;
                    this = this\<lparr>currentPage := ucast page\<rparr>;
                    w = delayMicroseconds (ucast (stall this)) w
                in (this, w))
             else (this, w));
          addr = (ucast (push_bit 8 (((ucast address :: c_int) AND 0x7F) OR 0x80)) :: uint16_t);
          lowWord = (ucast ((ucast addr :: c_int) OR ((scast regData :: c_int) AND 0xFF)) :: uint16_t);
          highWord = (ucast (((ucast addr :: c_int) OR 0x100)
                        OR (signed_drop_bit 8 (scast regData :: c_int) AND 0xFF)) :: uint16_t);
          w = digitalWrite (pin_CS this) LOW w;
          (_, w) = SPI_transfer xfer (ucast (drop_bit 8 lowWord)) w;
          (_, w) = SPI_transfer xfer (ucast (lowWord AND 0xFF)) w;
          w = digitalWrite (pin_CS this) HIGH w;
          w = delayMicroseconds (ucast (stall this)) w;
          w = digitalWrite (pin_CS this) LOW w;
          (_, w) = SPI_transfer xfer (ucast (drop_bit 8 highWord)) w;
          (_, w) = SPI_transfer xfer (ucast (highWord AND 0xFF)) w;
          w = digitalWrite (pin_CS this) HIGH w;
          w = delayMicroseconds (ucast (stall this)) w
      in (1, this, w)))"

text \<open>
  \<open>int16_t *ADIS16490::sensorRead(void)\<close>. The header under \<open>src/\<close> has no
  \<open>#define\<close> for \<open>ALM_STS\<close>, which line 213 sends: its value is the parameter
  \<open>ALM_STS\<close>. The macros are converted to the \<open>uint8_t\<close> argument of
  \<open>SPI.transfer\<close>. The function returns a pointer to its static array
  \<open>sensorwords[9]\<close>; the model returns the nine elements of the array after the
  call, element 0 first.
\<close>

definition sensorRead :: "'l spi \<Rightarrow> uint16_t \<Rightarrow> ADIS16490 \<times> 'l world \<Rightarrow> int16_t list \<times> ADIS16490 \<times> 'l world" where
  "sensorRead xfer ALM_STS = (\<lambda>(this, w).
     (let (this, w) =
            (if currentPage this \<noteq> 0x00 then
               (let w = digitalWrite (pin_CS this) LOW w;
                    (_, w) = SPI_transfer xfer 0x80 w;
                    (_, w) = SPI_transfer xfer 0x00 w;
                    w = digitalWrite (pin_CS this) HIGH w;
                    this = this\<lparr>currentPage := 0x00\<rparr>;
                    w = delayMicroseconds 10 w
                in (this, w))
             else (this, w));
          w = digitalWrite (pin_CS this) LOW w;
          (_, w) = SPI_transfer xfer (ucast DIAG_STS) w;
          (_, w) = SPI_transfer xfer 0x00 w;
          w = digitalWrite (pin_CS this) HIGH w;
          w = delayMicroseconds 10 w;
          w = digitalWrite (pin_CS this) LOW w;
          (sensorbyte0, w) = SPI_transfer xfer (ucast ALM_STS) w;
          (sensorbyte1, w) = SPI_transfer xfer 0x00 w;
          w = digitalWrite (pin_CS this) HIGH w;
          w = delayMicroseconds 10 w;
          w = digitalWrite (pin_CS this) LOW w;
          (sensorbyte2, w) = SPI_transfer xfer (ucast X_GYRO_OUT) w;
          (sensorbyte3, w) = SPI_transfer xfer 0x00 w;
          w = digitalWrite (pin_CS this) HIGH w;
          w = delayMicroseconds 10 w;
          w = digitalWrite (pin_CS this) LOW w;
          (sensorbyte4, w) = SPI_transfer xfer (ucast Y_GYRO_OUT) w;
          (sensorbyte5, w) = SPI_transfer xfer 0x00 w;
          w = digitalWrite (pin_CS this) HIGH w;
          w = delayMicroseconds 10 w;
          w = digitalWrite (pin_CS this) LOW w;
          (sensorbyte6, w) = SPI_transfer xfer (ucast Z_GYRO_OUT) w;
          (sensorbyte7, w) = SPI_transfer xfer 0x00 w;
          w = digitalWrite (pin_CS this) HIGH w;
          w = delayMicroseconds 10 w;
          w = digitalWrite (pin_CS this) LOW w;
          (sensorbyte8, w) = SPI_transfer xfer (ucast X_ACCL_OUT) w;
          (sensorbyte9, w) = SPI_transfer xfer 0x00 w;
          w = digitalWrite (pin_CS this) HIGH w;
          w = delayMicroseconds 10 w;
          w = digitalWrite (pin_CS this) LOW w;
          (sensorbyte10, w) = SPI_transfer xfer (ucast Y_ACCL_OUT) w;
          (sensorbyte11, w) = SPI_transfer xfer 0x00 w;
          w = digitalWrite (pin_CS this) HIGH w;
          w = delayMicroseconds 10 w;
          w = digitalWrite (pin_CS this) LOW w;
          (sensorbyte12, w) = SPI_transfer xfer (ucast Z_ACCL_OUT) w;
          (sensorbyte13, w) = SPI_transfer xfer 0x00 w;
          w = digitalWrite (pin_CS this) HIGH w;
          w = delayMicroseconds 10 w;
          w = digitalWrite (pin_CS this) LOW w;
          (sensorbyte14, w) = SPI_transfer xfer (ucast TEMP_OUT) w;
          (sensorbyte15, w) = SPI_transfer xfer 0x00 w;
          w = digitalWrite (pin_CS this) HIGH w;
          w = delayMicroseconds 10 w;
          w = digitalWrite (pin_CS this) LOW w;
          (sensorbyte16, w) = SPI_transfer xfer 0x00 w;
          (sensorbyte17, w) = SPI_transfer xfer 0x00 w;
          w = digitalWrite (pin_CS this) HIGH w;
          w = delayMicroseconds 10 w;
          sensorwords =
            [join_bytes sensorbyte0 sensorbyte1,
             join_bytes sensorbyte2 sensorbyte3,
             join_bytes sensorbyte4 sensorbyte5,
             join_bytes sensorbyte6 sensorbyte7,
             join_bytes sensorbyte8 sensorbyte9,
             join_bytes sensorbyte10 sensorbyte11,
             join_bytes sensorbyte12 sensorbyte13,
             join_bytes sensorbyte14 sensorbyte15,
             join_bytes sensorbyte16 sensorbyte17]
      in (sensorwords, this, w)))"

section \<open>Binary floating point\<close>

text \<open>
  The value of a finite IEEE 754 number is a rational, and an operation gives the
  rounding of its exact result, to nearest with ties to even. The exponent range of the
  formats is not modelled: on 16-bit samples the values of the scaling functions are 0
  or of a magnitude between 1/100000 and 300000, far inside the range of both formats,
  so that no overflow, underflow or subnormal number occurs.
\<close>

text \<open>
  The nearest integer to a rational, a tie going to the even one.
\<close>

definition rne :: "rat \<Rightarrow> int" where
  "rne s =
     (let f = \<lfloor>s\<rfloor>; d = s - of_int f
      in if d < 1 / 2 then f else if 1 / 2 < d then f + 1 else if even f then f else f + 1)"

text \<open>
  The binary exponent of a positive rational \<open>x\<close>, the integer \<open>e\<close> with
  \<open>2^e \<le> x < 2^(e+1)\<close>: the difference of the bit lengths of numerator and
  denominator, or one less.
\<close>

definition expo :: "rat \<Rightarrow> int" where
  "expo x =
     (let (a, b) = quotient_of x; k = bitlen a - bitlen b
      in if 2 powi k \<le> x then k else k - 1)"

text \<open>
  Rounding to \<open>p\<close> significant bits: \<open>x\<close> is scaled so that its magnitude lies
  between \<open>2^(p-1)\<close> and \<open>2^p\<close>, rounded to an integer and scaled back. A C
  \<open>double\<close> has 53 significant bits and a \<open>float\<close> has 24.
\<close>

definition fl :: "nat \<Rightarrow> rat \<Rightarrow> rat" where
  "fl p x =
     (if x = 0 then 0
      else (let s = int p - 1 - expo \<bar>x\<bar>
            in of_int (rne (x * 2 powi s)) / 2 powi s))"

definition to_double :: "rat \<Rightarrow> rat" where
  "to_double = fl 53"

definition to_float :: "rat \<Rightarrow> rat" where
  "to_float = fl 24"

section \<open>The scaling functions\<close>

text \<open>
  \<open>float ADIS16490::accelScale(int16_t sensorData)\<close> and its four siblings, lines
  305 to 358. None of them reads or writes a member or the board, so each is a function
  of \<open>sensorData\<close> alone. In \<open>sensorData * 0.005\<close> the sample is converted to
  \<open>double\<close>, which is exact, the literal is the \<open>double\<close> nearest to 0.005, and the
  product is rounded to \<open>double\<close>; the initialisation of \<open>float finalData\<close> rounds it
  to \<open>float\<close>. In \<open>tempScale\<close> the sum with 25 is rounded to \<open>double\<close> in between.
\<close>

definition accelScale :: "int16_t \<Rightarrow> rat" where
  "accelScale sensorData = to_float (to_double (of_int (sint sensorData) * to_double (5 / 10)))"

definition gyroScale :: "int16_t \<Rightarrow> rat" where
  "gyroScale sensorData = to_float (to_double (of_int (sint sensorData) * to_double (5 / 1000)))"

definition tempScale :: "int16_t \<Rightarrow> rat" where
  "tempScale sensorData =
     to_float (to_double (to_double (of_int (sint sensorData) * to_double (1429 / 100000)) + 25))"

definition deltaAngleScale :: "int16_t \<Rightarrow> rat" where
  "deltaAngleScale sensorData = to_float (to_double (of_int (sint sensorData) * to_double (22 / 1000)))"

definition deltaVelocityScale :: "int16_t \<Rightarrow> rat" where
  "deltaVelocityScale sensorData = to_float (to_double (of_int (sint sensorData) * to_double (6104 / 1000)))"

section \<open>Observing the link\<close>

text \<open>
  What a probe on the link sees of a log: the framed exchanges, each the list of its byte
  exchanges (byte sent, byte received) between chip select going low and going high
  again, in the order of the log. An exchange outside a frame and a frame that is never
  closed are not counted.
\<close>

fun frames_from :: "c_int \<Rightarrow> (uint8_t \<times> uint8_t) list option \<Rightarrow> event list \<Rightarrow> (uint8_t \<times> uint8_t) list list" where
  "frames_from cs cur [] = []"
| "frames_from cs cur (DigitalWrite pin v # es) =
     (if pin = cs then
        (case v of
           LOW \<Rightarrow> frames_from cs (Some []) es
         | HIGH \<Rightarrow> (case cur of
               Some f \<Rightarrow> f # frames_from cs None es
             | None \<Rightarrow> frames_from cs None es))
      else frames_from cs cur es)"
| "frames_from cs cur (Transfer tx rx # es) =
     (case cur of
        Some f \<Rightarrow> frames_from cs (Some (f @ [(tx, rx)])) es
      | None \<Rightarrow> frames_from cs None es)"
| "frames_from cs cur (_ # es) = frames_from cs cur es"

definition frames :: "c_int \<Rightarrow> event list \<Rightarrow> (uint8_t \<times> uint8_t) list list" where
  "frames cs es = frames_from cs None es"

text \<open>
  Whether the probe is inside a frame after a log, and with which exchanges so far:
  what \<open>frames_from\<close> has to know to go on reading.
\<close>

fun frame_open :: "c_int \<Rightarrow> (uint8_t \<times> uint8_t) list option \<Rightarrow> event list \<Rightarrow> (uint8_t \<times> uint8_t) list option" where
  "frame_open cs cur [] = cur"
| "frame_open cs cur (DigitalWrite pin v # es) =
     (if pin = cs then
        (case v of
           LOW \<Rightarrow> frame_open cs (Some []) es
         | HIGH \<Rightarrow> frame_open cs None es)
      else frame_open cs cur es)"
| "frame_open cs cur (Transfer tx rx # es) =
     (case cur of
        Some f \<Rightarrow> frame_open cs (Some (f @ [(tx, rx)])) es
      | None \<Rightarrow> frame_open cs None es)"
| "frame_open cs cur (_ # es) = frame_open cs cur es"

text \<open>The bytes sent in each frame, and the events a call added to the log.\<close>

definition sent :: "(uint8_t \<times> uint8_t) list list \<Rightarrow> uint8_t list list" where
  "sent fs = map (map fst) fs"

definition received :: "(uint8_t \<times> uint8_t) list list \<Rightarrow> uint8_t list list" where
  "received fs = map (map snd) fs"

definition added :: "'l world \<Rightarrow> 'l world \<Rightarrow> event list" where
  "added w w' = drop (length (log w)) (log w')"

text \<open>The page and the in-page offset of a logical register address.\<close>

definition page_of :: "uint16_t \<Rightarrow> uint8_t" where
  "page_of addr = ucast (drop_bit 8 addr)"

definition offset_of :: "uint16_t \<Rightarrow> uint8_t" where
  "offset_of addr = ucast (addr AND 0xFF)"

text \<open>
  The 16-bit word that a two-byte frame received, first byte high; and the frames that
  write the register at offset 0 of the current page, \<open>PAGE_ID\<close>: their first byte is
  the write bit 0x80 alone.
\<close>

definition frame_word :: "(uint8_t \<times> uint8_t) list \<Rightarrow> int16_t" where
  "frame_word f = join_bytes (snd (f ! 0)) (snd (f ! 1))"

definition page_select_frames :: "uint8_t list list \<Rightarrow> uint8_t list list" where
  "page_select_frames fs = filter (\<lambda>f. length f = 2 \<and> hd f = 0x80) fs"

section \<open>Sequences of register reads and writes\<close>

datatype operation = RegRead uint16_t | RegWrite uint16_t int16_t

fun exec :: "'l spi \<Rightarrow> operation \<Rightarrow> ADIS16490 \<times> 'l world \<Rightarrow> ADIS16490 \<times> 'l world" where
  "exec xfer (RegRead regAddr) s = snd (regRead xfer regAddr s)"
| "exec xfer (RegWrite regAddr regData) s = snd (regWrite xfer regAddr regData s)"

fun run :: "'l spi \<Rightarrow> operation list \<Rightarrow> ADIS16490 \<times> 'l world \<Rightarrow> ADIS16490 \<times> 'l world" where
  "run xfer [] s = s"
| "run xfer (op # ops) s = run xfer ops (exec xfer op s)"

fun target :: "operation \<Rightarrow> uint16_t" where
  "target (RegRead regAddr) = regAddr"
| "target (RegWrite regAddr regData) = regAddr"

text \<open>
  The bytes of the in-page access of an operation: the address frame and the data frame
  of a read, the low frame and the high frame of a write.
\<close>

fun access :: "operation \<Rightarrow> uint8_t list list" where
  "access (RegRead regAddr) = [[offset_of regAddr, 0x00], [0x00, 0x00]]"
| "access (RegWrite regAddr regData) =
     [[0x80 OR offset_of regAddr, ucast regData],
      [0x80 OR offset_of regAddr OR 1, ucast (drop_bit 8 regData)]]"

section \<open>Test doubles for the link\<close>

text \<open>
  A link that plays back a script: it answers with the bytes of its state in order,
  whatever is sent, and with 0 when the script is over.
\<close>

definition scripted :: "uint8_t list spi" where
  "scripted l tx = (case l of [] \<Rightarrow> (0, []) | b # bs \<Rightarrow> (b, bs))"


text \<open>
  A stand-in for the device. Every register holds its own logical
  address. A frame is two bytes; during a frame the device shifts out the word that the
  frame before asked for. A first byte below 0x80 asks for the register at that offset
  of the current page; the first byte 0x80 writes the second byte to \<open>PAGE_ID\<close>, which
  selects the page; any other write is ignored. The sketches construct the driver as
  \<open>IMU(10,2,6)\<close>.
\<close>

record mock_device =
  dev_page :: uint8_t
  dev_out :: uint16_t
  dev_cmd :: "uint8_t option"

definition mock :: "mock_device spi" where
  "mock d tx =
     (case dev_cmd d of
        None \<Rightarrow> (ucast (drop_bit 8 (dev_out d)), d\<lparr>dev_cmd := Some tx\<rparr>)
      | Some cmd \<Rightarrow>
          (ucast (dev_out d),
           if cmd < 0x80 then d\<lparr>dev_out := word_cat (dev_page d) cmd, dev_cmd := None\<rparr>
           else if cmd = 0x80 then d\<lparr>dev_page := tx, dev_cmd := None\<rparr>
           else d\<lparr>dev_cmd := None\<rparr>))"

definition power_on :: "mock_device world" where
  "power_on = \<lparr>link = \<lparr>dev_page = 0, dev_out = 0, dev_cmd = None\<rparr>, log = []\<rparr>"

definition IMU :: "ADIS16490 \<times> mock_device world" where
  "IMU = constructor 10 2 6 power_on"

section \<open>Bytes and words\<close>

lemma byte_mask: "(255 :: 'a::len word) = mask 8"
  by (simp add: mask_eq_exp_minus_1)

lemma below8: "n < 8 \<Longrightarrow> n \<in> {0, 1, 2, 3, 4, 5, 6, 7 :: nat}"
  by auto

lemma page_src: "(ucast (drop_bit 8 (ucast (a::16 word) :: 32 word) AND 0xFF) :: 8 word) = page_of a"
  unfolding page_of_def byte_mask
  by (rule bit_word_eqI) (auto simp: bit_simps)

lemma offset_src: "(ucast ((ucast (a::16 word) :: 32 word) AND 0xFF) :: 8 word) = offset_of a"
  unfolding offset_of_def byte_mask
  by (rule bit_word_eqI) (auto simp: bit_simps)

lemma ucast_8_32_inj: "(ucast (a :: 8 word) :: 32 word) = ucast b \<longleftrightarrow> a = b"
proof
  assume "(ucast a :: 32 word) = ucast b"
  then have "(ucast (ucast a :: 32 word) :: 8 word) = ucast (ucast b :: 32 word)" by simp
  then show "a = b" by (simp add: ucast_up_ucast_id is_up)
qed simp

lemma join_bytes_cat: "join_bytes hi lo = word_cat hi lo"
  unfolding join_bytes_def byte_mask
  by (rule bit_word_eqI) (auto simp: bit_simps dest: bit_imp_le_length)

lemma join_bytes_or: "join_bytes hi lo = push_bit 8 (ucast hi) OR ucast lo"
  by (simp add: join_bytes_cat word_cat_eq_push_bit_or)

lemma uint_join_bytes: "uint (join_bytes hi lo) = 256 * uint hi + uint lo"
proof -
  have "uint hi < 256" "uint lo < 256"
    using uint_lt2p [of hi] uint_lt2p [of lo] by simp_all
  then show ?thesis
    unfolding join_bytes_cat word_cat_eq
    by (simp add: uint_word_ariths push_bit_eq_mult unsigned_ucast_eq take_bit_eq_mod uint_mult_lem)
qed

lemma sint_int16: "sint (v :: 16 word) = (if uint v < 32768 then uint v else uint v - 65536)"
proof -
  have bounds: "0 \<le> uint v" "uint v < 65536"
    using uint_lt2p [of v] by simp_all
  have s: "sint v = (uint v + 32768) mod 65536 - 32768"
    by (simp add: sint_uint signed_take_bit_eq_take_bit_shift take_bit_eq_mod)
  show ?thesis
  proof (cases "uint v < 32768")
    case True
    with bounds have "(uint v + 32768) mod 65536 = uint v + 32768"
      by (simp add: mod_pos_pos_trivial)
    with True s show ?thesis
      by simp
  next
    case False
    have "uint v + 32768 = uint v - 32768 + 65536"
      by arith
    then have "(uint v + 32768) mod 65536 = (uint v - 32768 + 65536) mod 65536"
      by (rule arg_cong)
    also have "\<dots> = (uint v - 32768) mod 65536"
      by (simp only: mod_add_self2)
    also from False bounds have "\<dots> = uint v - 32768"
      by (simp add: mod_pos_pos_trivial)
    finally show ?thesis
      using False s by simp
  qed
qed

lemma frame_word_or: "frame_word f = push_bit 8 (ucast (snd (f ! 0))) OR ucast (snd (f ! 1))"
  by (simp only: frame_word_def join_bytes_or)

lemma sint_frame_word:
  "sint (frame_word f) =
     (if 256 * uint (snd (f ! 0)) + uint (snd (f ! 1)) < 32768
      then 256 * uint (snd (f ! 0)) + uint (snd (f ! 1))
      else 256 * uint (snd (f ! 0)) + uint (snd (f ! 1)) - 65536)"
  by (simp only: frame_word_def sint_int16 uint_join_bytes)

lemma join_bytes_split: "join_bytes (ucast (drop_bit 8 v)) (ucast v) = (v :: 16 word)"
  unfolding join_bytes_cat
  by (rule bit_word_eqI) (auto simp: bit_simps)

text \<open>On an even byte, setting bit 0 is adding 1.\<close>

lemma or_1_even: "even (b :: uint8_t) \<Longrightarrow> b OR 1 = b + 1"
  by (simp add: or_one_eq)

section \<open>Logs and frames\<close>

lemmas prims = digitalWrite_def delayMicroseconds_def delay_def pinMode_def SPI_begin_def
  SPI_beginTransaction_def SPI_end_def SPI_transfer_def emit_def

lemma frames_from_append:
  "frames_from cs cur (xs @ ys) = frames_from cs cur xs @ frames_from cs (frame_open cs cur xs) ys"
  by (induction cs cur xs rule: frames_from.induct) (auto split: level.splits option.splits)

lemma frames_append:
  "frame_open cs None xs = None \<Longrightarrow> frames cs (xs @ ys) = frames cs xs @ frames cs ys"
  by (simp add: frames_def frames_from_append)

lemma added_append:
  "log w1 = log w @ xs \<Longrightarrow> log w2 = log w1 @ ys \<Longrightarrow> added w w2 = xs @ ys"
  by (simp add: added_def)

subsection \<open>What the constructor, \<open>configSPI\<close> and \<open>resetDUT\<close> do\<close>

lemma constructor_this:
  "fst (constructor cs dr rst w) =
     \<lparr>pin_CS = cs, pin_DR = dr, pin_RST = rst, stall = 5, currentPage = 0\<rparr>"
  by (simp add: constructor_def configSPI_def Let_def split_def)

lemma resetDUT_this: "fst (snd (resetDUT ms (this, w))) = this"
  by (simp add: resetDUT_def Let_def)

lemma configSPI_this: "fst (snd (configSPI (this, w))) = this"
  by (simp add: configSPI_def Let_def)

lemma resetDUT_added:
  "added w (snd (snd (resetDUT ms (this, w)))) =
     [DigitalWrite (pin_RST this) LOW, DelayMicroseconds 500,
      DigitalWrite (pin_RST this) HIGH, Delay (ucast ms)]"
  by (simp add: resetDUT_def Let_def prims added_def)

lemma resetDUT_value: "fst (resetDUT ms s) = 1"
  by (simp add: resetDUT_def Let_def split_def)

lemma constructor_fresh:
  "pin_CS (fst (constructor cs dr rst board)) = cs"
  "currentPage (fst (constructor cs dr rst board)) = 0"
  by (simp_all add: constructor_this)

lemma zero_is_page: "(0 :: c_int) = ucast (p :: uint8_t) \<longleftrightarrow> p = 0"
  using ucast_8_32_inj [of 0 p] by auto

subsection \<open>What \<open>regRead\<close> does\<close>

lemma regRead_this:
  "fst (snd (regRead xfer a (this, w))) = this\<lparr>currentPage := ucast (page_of a)\<rparr>"
  by (simp add: regRead_def Let_def split_def page_src)

lemma regRead_log:
  "log (snd (snd (regRead xfer a (this, w)))) = log w @ added w (snd (snd (regRead xfer a (this, w))))"
  by (simp add: regRead_def Let_def split_def prims added_def)

lemma regRead_closed:
  "frame_open (pin_CS this) None (added w (snd (snd (regRead xfer a (this, w))))) = None"
  by (simp add: regRead_def Let_def split_def prims added_def)

lemma regRead_sent:
  "sent (frames (pin_CS this) (added w (snd (snd (regRead xfer a (this, w)))))) =
     (if currentPage this = ucast (page_of a) then [] else [[0x80, page_of a]])
       @ [[offset_of a, 0x00], [0x00, 0x00]]"
  by (simp add: regRead_def Let_def split_def page_src offset_src prims added_def frames_def sent_def)

lemma regRead_value:
  "fst (regRead xfer a (this, w)) =
     frame_word (last (frames (pin_CS this) (added w (snd (snd (regRead xfer a (this, w)))))))"
  by (simp add: regRead_def Let_def split_def prims added_def frames_def frame_word_def)

text \<open>Every 16-bit value is the result of \<open>regRead\<close> on some answer of the link.\<close>

lemma regRead_any_value:
  "\<exists>script. fst (regRead scripted addr (this, w\<lparr>link := script\<rparr>)) = v"
proof (cases "currentPage this = ucast (page_of addr)")
  case True
  then have "fst (regRead scripted addr (this, w\<lparr>link := [0, 0, ucast (drop_bit 8 v), ucast v]\<rparr>)) = v"
    by (simp add: regRead_def Let_def split_def page_src prims scripted_def join_bytes_split)
  then show ?thesis ..
next
  case False
  then have "fst (regRead scripted addr (this, w\<lparr>link := [0, 0, 0, 0, ucast (drop_bit 8 v), ucast v]\<rparr>)) = v"
    by (simp add: regRead_def Let_def split_def page_src prims scripted_def join_bytes_split)
  then show ?thesis ..
qed

subsection \<open>What \<open>regWrite\<close> does\<close>

text \<open>The four bytes that lines 157 to 172 compute, in 32-bit arithmetic as C does.\<close>

lemma low_addr_byte:
  "(ucast (drop_bit 8 (ucast ((ucast (ucast (push_bit 8 (((ucast (b::8 word) :: c_int) AND 0x7F) OR 0x80)) :: uint16_t) :: c_int) OR ((scast (regData::16 word) :: c_int) AND 0xFF)) :: uint16_t)) :: 8 word)
   = 0x80 OR b" (is "?L = ?R")
proof (rule bit_word_eqI)
  fix n :: nat assume "n < LENGTH(8)"
  then have "n < 8" by simp
  from below8 [OF this] show "bit ?L n = bit ?R n"
    by (elim insertE emptyE) (simp_all add: bit_simps)
qed

lemma low_data_byte:
  "(ucast ((ucast ((ucast (ucast (push_bit 8 (((ucast (b::8 word) :: c_int) AND 0x7F) OR 0x80)) :: uint16_t) :: c_int) OR ((scast (regData::16 word) :: c_int) AND 0xFF)) :: uint16_t) AND 0xFF) :: 8 word)
   = ucast regData" (is "?L = ?R")
proof (rule bit_word_eqI)
  fix n :: nat assume "n < LENGTH(8)"
  then have "n < 8" by simp
  from below8 [OF this] show "bit ?L n = bit ?R n"
    by (elim insertE emptyE) (simp_all add: bit_simps)
qed

lemma high_addr_byte:
  "(ucast (drop_bit 8 (ucast (((ucast (ucast (push_bit 8 (((ucast (b::8 word) :: c_int) AND 0x7F) OR 0x80)) :: uint16_t) :: c_int) OR 0x100)
                        OR (signed_drop_bit 8 (scast (regData::16 word) :: c_int) AND 0xFF)) :: uint16_t)) :: 8 word)
   = 0x80 OR b OR 1" (is "?L = ?R")
proof (rule bit_word_eqI)
  fix n :: nat assume "n < LENGTH(8)"
  then have "n < 8" by simp
  from below8 [OF this] show "bit ?L n = bit ?R n"
    by (elim insertE emptyE) (simp_all add: bit_simps)
qed

lemma high_data_byte:
  "(ucast ((ucast (((ucast (ucast (push_bit 8 (((ucast (b::8 word) :: c_int) AND 0x7F) OR 0x80)) :: uint16_t) :: c_int) OR 0x100)
                        OR (signed_drop_bit 8 (scast (regData::16 word) :: c_int) AND 0xFF)) :: uint16_t) AND 0xFF) :: 8 word)
   = ucast (drop_bit 8 regData)" (is "?L = ?R")
proof (rule bit_word_eqI)
  fix n :: nat assume "n < LENGTH(8)"
  then have "n < 8" by simp
  from below8 [OF this] show "bit ?L n = bit ?R n"
    by (elim insertE emptyE) (simp_all add: bit_simps)
qed

lemma regWrite_this:
  "fst (snd (regWrite xfer a d (this, w))) = this\<lparr>currentPage := ucast (page_of a)\<rparr>"
  by (simp add: regWrite_def Let_def split_def page_src)

lemma regWrite_log:
  "log (snd (snd (regWrite xfer a d (this, w)))) = log w @ added w (snd (snd (regWrite xfer a d (this, w))))"
  by (simp add: regWrite_def Let_def split_def prims added_def)

lemma regWrite_closed:
  "frame_open (pin_CS this) None (added w (snd (snd (regWrite xfer a d (this, w))))) = None"
  by (simp add: regWrite_def Let_def split_def prims added_def)

lemma regWrite_sent:
  "sent (frames (pin_CS this) (added w (snd (snd (regWrite xfer a d (this, w)))))) =
     (if currentPage this = ucast (page_of a) then [] else [[0x80, page_of a]])
       @ [[0x80 OR offset_of a, ucast d], [0x80 OR offset_of a OR 1, ucast (drop_bit 8 d)]]"
  unfolding regWrite_def Let_def split_def page_src offset_src low_addr_byte low_data_byte high_addr_byte high_data_byte
  by (simp add: prims added_def frames_def sent_def Let_def split_def)

lemma regWrite_value: "fst (regWrite xfer a d s) = 1"
  by (simp add: regWrite_def Let_def split_def)

subsection \<open>What \<open>sensorRead\<close> does\<close>

lemma sensorRead_this:
  "fst (snd (sensorRead xfer alm (this, w))) = this\<lparr>currentPage := 0\<rparr>"
  by (simp add: sensorRead_def Let_def split_def)

lemma sensorRead_sent:
  "sent (frames (pin_CS this) (added w (snd (snd (sensorRead xfer alm (this, w)))))) =
     (if currentPage this = 0 then [] else [[0x80, 0x00]])
       @ map (\<lambda>r. [ucast r, 0x00])
           [DIAG_STS, alm, X_GYRO_OUT, Y_GYRO_OUT, Z_GYRO_OUT, X_ACCL_OUT, Y_ACCL_OUT, Z_ACCL_OUT, TEMP_OUT]
       @ [[0x00, 0x00]]"
  by (simp add: sensorRead_def Let_def split_def prims added_def frames_def sent_def)

lemma sensorRead_value:
  "fst (sensorRead xfer alm (this, w)) =
     map frame_word
       (tl (drop (if currentPage this = 0 then 0 else 1)
          (frames (pin_CS this) (added w (snd (snd (sensorRead xfer alm (this, w))))))))"
  by (simp add: sensorRead_def Let_def split_def prims added_def frames_def frame_word_def)

lemma sensorRead_length: "length (fst (sensorRead xfer alm s)) = 9"
  by (simp add: sensorRead_def Let_def split_def)

lemma sensorRead_burst_sent:
  "sent (drop (if currentPage this = 0 then 0 else 1)
      (frames (pin_CS this) (added w (snd (snd (sensorRead xfer alm (this, w))))))) =
     map (\<lambda>reg. [ucast reg, 0x00])
       [DIAG_STS, alm, X_GYRO_OUT, Y_GYRO_OUT, Z_GYRO_OUT, X_ACCL_OUT, Y_ACCL_OUT, Z_ACCL_OUT, TEMP_OUT]
     @ [[0x00, 0x00]]"
proof -
  have "sent (drop n fs) = drop n (sent fs)" for n and fs :: "(uint8_t \<times> uint8_t) list list"
    by (simp add: sent_def drop_map)
  then show ?thesis
    by (simp add: sensorRead_sent)
qed

subsection \<open>Sequences\<close>

lemma exec_this:
  "fst (exec xfer op (this, w)) = this\<lparr>currentPage := ucast (page_of (target op))\<rparr>"
  by (cases op) (simp_all add: regRead_this regWrite_this)

lemma exec_log:
  "log (snd (exec xfer op (this, w))) = log w @ added w (snd (exec xfer op (this, w)))"
  by (cases op) (simp_all add: regRead_log [symmetric] regWrite_log [symmetric])

lemma exec_closed:
  "frame_open (pin_CS this) None (added w (snd (exec xfer op (this, w)))) = None"
  by (cases op) (simp_all add: regRead_closed regWrite_closed)

lemma exec_sent:
  "sent (frames (pin_CS this) (added w (snd (exec xfer op (this, w))))) =
     (if currentPage this = ucast (page_of (target op)) then [] else [[0x80, page_of (target op)]])
       @ access op"
  by (cases op) (simp_all add: regRead_sent regWrite_sent)

lemma sent_append: "sent (xs @ ys) = sent xs @ sent ys"
  by (simp add: sent_def)

lemma run_same_page:
  "list_all (\<lambda>op. page_of (target op) = p) ops \<Longrightarrow>
     log (snd (run xfer ops (this, w))) = log w @ added w (snd (run xfer ops (this, w)))
   \<and> pin_CS (fst (run xfer ops (this, w))) = pin_CS this
   \<and> sent (frames (pin_CS this) (added w (snd (run xfer ops (this, w))))) =
       (if currentPage this = ucast p \<or> ops = [] then [] else [[0x80, p]]) @ concat (map access ops)"
proof (induction ops arbitrary: this w)
  case Nil
  show ?case by (simp add: added_def frames_def sent_def)
next
  case (Cons op ops)
  obtain this1 w1 where s1: "exec xfer op (this, w) = (this1, w1)" by (cases "exec xfer op (this, w)")
  from Cons.prems have p: "page_of (target op) = p" and rest: "list_all (\<lambda>op. page_of (target op) = p) ops"
    by simp_all
  have this1: "this1 = this\<lparr>currentPage := ucast p\<rparr>"
    using exec_this [of xfer op this w] s1 p by simp
  have log1: "log w1 = log w @ added w w1"
    using exec_log [of xfer op this w] s1 by simp
  have closed1: "frame_open (pin_CS this) None (added w w1) = None"
    using exec_closed [of this w xfer op] s1 by simp
  have sent1: "sent (frames (pin_CS this) (added w w1)) =
      (if currentPage this = ucast p then [] else [[0x80, p]]) @ access op"
    using exec_sent [of this w xfer op] s1 p by simp
  note IH = Cons.IH [OF rest, of this1 w1]
  let ?s' = "run xfer ops (this1, w1)"
  have log2: "log (snd ?s') = log w1 @ added w1 (snd ?s')" using IH by simp
  have sent2: "sent (frames (pin_CS this) (added w1 (snd ?s'))) = concat (map access ops)"
    using IH this1 by simp
  have added: "added w (snd ?s') = added w w1 @ added w1 (snd ?s')"
    by (rule added_append [OF log1 log2])
  have "log (snd ?s') = log w @ added w (snd ?s')"
    using log1 log2 added by simp
  moreover have "pin_CS (fst ?s') = pin_CS this" using IH this1 by simp
  moreover have "sent (frames (pin_CS this) (added w (snd ?s'))) =
      (if currentPage this = ucast p then [] else [[0x80, p]]) @ concat (map access (op # ops))"
    by (simp add: added frames_append [OF closed1] sent_append sent1 sent2)
  ultimately show ?case by (simp add: s1)
qed

section \<open>Rounding\<close>

lemma rne_error: "\<bar>of_int (rne s) - s\<bar> \<le> 1 / 2"
proof -
  have "of_int \<lfloor>s\<rfloor> \<le> s" "s < of_int \<lfloor>s\<rfloor> + 1"
    by linarith+
  then show ?thesis
    by (auto simp: rne_def Let_def)
qed

lemma rne_of_int: "rne (of_int n) = n"
  by (simp add: rne_def Let_def)

lemma expo_bounds:
  assumes "0 < x"
  shows "2 powi expo x \<le> x" and "x < 2 powi (expo x + 1)"
proof -
  obtain a b where q: "quotient_of x = (a, b)"
    by (cases "quotient_of x")
  then have b: "0 < b" and x: "x = of_int a / of_int b"
    by (simp_all add: quotient_of_denom_pos quotient_of_div)
  from assms b x have a: "0 < a"
    by (simp add: zero_less_divide_iff)
  let ?k = "bitlen a - bitlen b"
  have la: "1 \<le> bitlen a" and lb: "1 \<le> bitlen b"
    using a b by (simp_all add: bitlen_alt_def)
  from bitlen_bounds [OF a] have a_lo: "(2 :: rat) powi (bitlen a - 1) \<le> of_int a"
    and a_hi: "of_int a < (2 :: rat) powi bitlen a"
  proof -
    assume h: "2 ^ nat (bitlen a - 1) \<le> a \<and> a < 2 ^ nat (bitlen a)"
    have "(of_int (2 ^ nat (bitlen a - 1)) :: rat) \<le> of_int a"
      using h by (simp only: of_int_le_iff)
    then show "(2 :: rat) powi (bitlen a - 1) \<le> of_int a"
      using la by (simp add: power_int_def)
    have "(of_int a :: rat) < of_int (2 ^ nat (bitlen a))"
      using h by (simp only: of_int_less_iff)
    then show "of_int a < (2 :: rat) powi bitlen a"
      using la by (simp add: power_int_def)
  qed
  from bitlen_bounds [OF b] have b_lo: "(2 :: rat) powi (bitlen b - 1) \<le> of_int b"
    and b_hi: "of_int b < (2 :: rat) powi bitlen b"
  proof -
    assume h: "2 ^ nat (bitlen b - 1) \<le> b \<and> b < 2 ^ nat (bitlen b)"
    have "(of_int (2 ^ nat (bitlen b - 1)) :: rat) \<le> of_int b"
      using h by (simp only: of_int_le_iff)
    then show "(2 :: rat) powi (bitlen b - 1) \<le> of_int b"
      using lb by (simp add: power_int_def)
    have "(of_int b :: rat) < of_int (2 ^ nat (bitlen b))"
      using h by (simp only: of_int_less_iff)
    then show "of_int b < (2 :: rat) powi bitlen b"
      using lb by (simp add: power_int_def)
  qed
  have bpos: "(0 :: rat) < of_int b"
    using b by simp
  have low: "(2 :: rat) powi (?k - 1) \<le> x"
  proof -
    have "(2 :: rat) powi (?k - 1) = 2 powi (bitlen a - 1) / 2 powi bitlen b"
      by (simp add: power_int_diff)
    also have "\<dots> \<le> of_int a / 2 powi bitlen b"
      using a_lo by (simp add: divide_right_mono)
    also have "\<dots> \<le> of_int a / of_int b"
      using b_hi bpos a by (simp add: frac_le)
    finally show ?thesis
      by (simp add: x)
  qed
  have high: "x < (2 :: rat) powi (?k + 1)"
  proof -
    have "x = of_int a / of_int b"
      by (rule x)
    also have "\<dots> < 2 powi bitlen a / of_int b"
      using a_hi bpos by (simp add: divide_strict_right_mono)
    also have "\<dots> \<le> 2 powi bitlen a / 2 powi (bitlen b - 1)"
      using b_lo by (simp add: frac_le)
    also have "\<dots> = (2 :: rat) powi (?k + 1)"
      by (simp add: power_int_diff [symmetric] algebra_simps)
    finally show ?thesis .
  qed
  show "2 powi expo x \<le> x"
    using low by (simp add: expo_def q Let_def)
  show "x < 2 powi (expo x + 1)"
    using high by (auto simp: expo_def q Let_def not_le)
qed

lemma fl_error: "\<bar>fl p x - x\<bar> \<le> \<bar>x\<bar> / 2 ^ p"
proof (cases "x = 0")
  case True
  then show ?thesis
    by (simp add: fl_def)
next
  case False
  define e where "e = expo \<bar>x\<bar>"
  define s where "s = int p - 1 - e"
  define P :: rat where "P = 2 powi s"
  have P: "0 < P"
    by (simp add: P_def)
  have fl: "fl p x = of_int (rne (x * P)) / P"
    using False by (simp add: fl_def Let_def e_def s_def P_def)
  have "of_int (rne (x * P)) / P - x = (of_int (rne (x * P)) - x * P) / P"
    using P by (simp add: field_simps)
  then have "\<bar>of_int (rne (x * P)) / P - x\<bar> = \<bar>of_int (rne (x * P)) - x * P\<bar> / P"
    using P by (simp only: abs_divide abs_of_pos)
  also have "\<dots> \<le> (1 / 2) / P"
    by (rule divide_right_mono [OF rne_error]) (use P in simp)
  also have "(1 / 2) / P = 2 powi e / 2 ^ p"
  proof -
    have "(2 :: rat) powi s = 2 powi (int p - 1) / 2 powi e"
      by (simp add: s_def power_int_diff)
    moreover have "(2 :: rat) powi (int p - 1) = 2 ^ p / 2"
      by (simp add: power_int_diff)
    ultimately show ?thesis
      by (simp add: P_def)
  qed
  also have "\<dots> \<le> \<bar>x\<bar> / 2 ^ p"
    using expo_bounds(1) [of "\<bar>x\<bar>"] False by (simp add: e_def divide_right_mono)
  finally show ?thesis
    by (simp only: fl)
qed

lemma fl_exact:
  assumes "x \<noteq> 0" and "x * 2 powi (int p - 1 - expo \<bar>x\<bar>) = of_int n"
  shows "fl p x = x"
proof -
  have "fl p x = of_int n / 2 powi (int p - 1 - expo \<bar>x\<bar>)"
    using assms(1) by (simp add: fl_def Let_def assms(2) rne_of_int)
  also have "\<dots> = x"
    by (simp add: assms(2) [symmetric])
  finally show ?thesis .
qed

lemma fl_half:
  assumes "\<bar>k\<bar> \<le> 32768" and "17 \<le> p"
  shows "fl p (of_int k / 2) = of_int k / 2"
proof (cases "k = 0")
  case True
  then show ?thesis
    by (simp add: fl_def)
next
  case False
  let ?x = "of_int k / 2 :: rat"
  have x0: "?x \<noteq> 0"
    using False by simp
  have "\<bar>?x\<bar> \<le> 16384"
    using assms(1) by (simp add: abs_le_iff)
  then have "(2 :: rat) powi expo \<bar>?x\<bar> < 2 powi 15"
    using expo_bounds(1) [of "\<bar>?x\<bar>"] x0 by simp
  then have e: "expo \<bar>?x\<bar> < 15"
    by (rule power_int_le_imp_less_exp [rotated]) simp_all
  define t where "t = int p - 2 - expo \<bar>?x\<bar>"
  have t: "0 \<le> t"
    using e assms(2) by (simp add: t_def)
  have "?x * 2 powi (int p - 1 - expo \<bar>?x\<bar>) = of_int k * 2 powi t"
  proof -
    have s: "int p - 1 - expo \<bar>?x\<bar> = t + 1"
      by (simp add: t_def)
    have "?x * 2 powi (t + 1) = of_int k * 2 powi t"
      by (simp add: power_int_add)
    then show ?thesis
      by (simp only: s)
  qed
  also have "\<dots> = of_int (k * 2 ^ nat t)"
    using t by (simp add: power_int_def)
  finally show ?thesis
    by (rule fl_exact [OF x0])
qed

text \<open>
  Three roundings in a row, of the coefficient, of the product and of the conversion to
  \<open>float\<close>, stay within a relative error of \<open>2^-23\<close>; so do four, with the sum.
\<close>

lemma scale_error:
  "\<bar>to_float (to_double (k * to_double c)) - k * c\<bar> \<le> \<bar>k * c\<bar> / 2 ^ 23"
proof -
  define a where "a = k * to_double c"
  define y where "y = to_double a"
  define z where "z = to_float y"
  have "\<bar>a - k * c\<bar> = \<bar>k\<bar> * \<bar>to_double c - c\<bar>"
    by (simp add: a_def abs_mult [symmetric] algebra_simps)
  also have "\<dots> \<le> \<bar>k\<bar> * (\<bar>c\<bar> / 2 ^ 53)"
    unfolding to_double_def by (rule mult_left_mono [OF fl_error]) simp
  finally have h1: "\<bar>a - k * c\<bar> \<le> \<bar>k * c\<bar> / 9007199254740992"
    by (simp add: abs_mult)
  have h2: "\<bar>y - a\<bar> \<le> \<bar>a\<bar> / 9007199254740992"
    using fl_error [of 53 a] by (simp add: y_def to_double_def)
  have h3: "\<bar>z - y\<bar> \<le> \<bar>y\<bar> / 16777216"
    using fl_error [of 24 y] by (simp add: z_def to_float_def)
  from h1 h2 h3 have "\<bar>z - k * c\<bar> \<le> \<bar>k * c\<bar> / 8388608"
    by linarith
  then show ?thesis
    by (simp add: z_def y_def a_def)
qed

lemma offset_error:
  "\<bar>to_float (to_double (to_double (k * to_double c) + 25)) - (k * c + 25)\<bar>
     \<le> (\<bar>k * c\<bar> + 25) / 2 ^ 23"
proof -
  define a where "a = k * to_double c"
  define y where "y = to_double a"
  define u where "u = to_double (y + 25)"
  define z where "z = to_float u"
  define T where "T = \<bar>k * c\<bar>"
  define A where "A = \<bar>a\<bar>"
  define W where "W = \<bar>y + 25\<bar>"
  define U where "U = \<bar>u\<bar>"
  define E1 where "E1 = \<bar>a - k * c\<bar>"
  define E2 where "E2 = \<bar>y - a\<bar>"
  define E3 where "E3 = \<bar>u - (y + 25)\<bar>"
  define E4 where "E4 = \<bar>z - u\<bar>"
  have "\<bar>a - k * c\<bar> = \<bar>k\<bar> * \<bar>to_double c - c\<bar>"
    by (simp add: a_def abs_mult [symmetric] algebra_simps)
  also have "\<dots> \<le> \<bar>k\<bar> * (\<bar>c\<bar> / 2 ^ 53)"
    unfolding to_double_def by (rule mult_left_mono [OF fl_error]) simp
  finally have h1: "E1 \<le> T / 9007199254740992"
    by (simp add: abs_mult E1_def T_def)
  have h2: "E2 \<le> A / 9007199254740992"
    using fl_error [of 53 a] by (simp add: y_def to_double_def E2_def A_def)
  have h3: "E3 \<le> W / 9007199254740992"
    using fl_error [of 53 "y + 25"] by (simp add: u_def to_double_def E3_def W_def)
  have h4: "E4 \<le> U / 16777216"
    using fl_error [of 24 u] by (simp add: z_def to_float_def E4_def U_def)
  have T: "0 \<le> T"
    by (simp add: T_def)
  have A: "A \<le> T + E1"
    unfolding A_def T_def E1_def by linarith
  have W: "W \<le> A + E2 + 25"
    unfolding W_def A_def E2_def by linarith
  have U: "U \<le> W + E3"
    unfolding U_def W_def E3_def by linarith
  have "\<bar>z - (k * c + 25)\<bar> \<le> E4 + E3 + E2 + E1"
    unfolding E1_def E2_def E3_def E4_def by linarith
  also from h1 h2 h3 h4 T A W U have "\<dots> \<le> T / 8388608 + 25 / 8388608"
    by linarith
  finally show ?thesis
    by (simp add: z_def u_def y_def a_def T_def add_divide_distrib)
qed

lemma sint16_abs: "\<bar>sint (raw :: 16 word)\<bar> \<le> 32768"
  using sint_ge [of raw] sint_lt [of raw] by simp

lemma accelScale_exact: "accelScale raw = of_int (sint raw) * (1 / 2)"
proof -
  have half: "to_double (5 / 10) = 1 / 2"
    by code_simp
  have "to_double (of_int (sint raw) / 2) = of_int (sint raw) / 2"
    unfolding to_double_def by (rule fl_half [OF sint16_abs]) simp
  moreover have "to_float (of_int (sint raw) / 2) = of_int (sint raw) / 2"
    unfolding to_float_def by (rule fl_half [OF sint16_abs]) simp
  moreover have "of_int (sint raw) * (1 / 2 :: rat) = of_int (sint raw) / 2"
    by simp
  ultimately show ?thesis
    by (simp only: accelScale_def half)
qed

section \<open>The claims\<close>

text \<open>
  C1. For every 16-bit register address and from every state of the driver and of the
  link, \<open>regRead\<close> only appends to the log; the frames it adds are the page-select
  frame (0x80, page) exactly when \<open>currentPage\<close> differs from \<open>page = addr >> 8\<close>,
  then the address frame (offset, 0x00) with \<open>offset = addr & 0xFF\<close>, then the data
  frame (0x00, 0x00); \<open>currentPage\<close> is the page afterwards; and the value returned is
  made of the two bytes received in the last frame alone, \<open>(hi << 8) | lo\<close>, read as a
  signed 16-bit two's-complement integer. What the first exchange received has no part
  in it.
\<close>

theorem regRead_exchanges:
  "(let (r, this', w') = regRead xfer addr (this, w);
        fs = frames (pin_CS this) (added w w');
        hi = snd (last fs ! 0);
        lo = snd (last fs ! 1)
    in log w' = log w @ added w w'
     \<and> sent fs = (if currentPage this = ucast (page_of addr) then [] else [[0x80, page_of addr]])
                    @ [[offset_of addr, 0x00], [0x00, 0x00]]
     \<and> this' = this\<lparr>currentPage := ucast (page_of addr)\<rparr>
     \<and> r = push_bit 8 (ucast hi) OR ucast lo
     \<and> sint r = (if 256 * uint hi + uint lo < 32768 then 256 * uint hi + uint lo
                 else 256 * uint hi + uint lo - 65536))"
proof -
  let ?s = "regRead xfer addr (this, w)"
  let ?fs = "frames (pin_CS this) (added w (snd (snd ?s)))"
  have v: "fst ?s = join_bytes (snd (last ?fs ! 0)) (snd (last ?fs ! 1))"
    using regRead_value [of xfer addr this w] by (simp add: frame_word_def)
  have "log (snd (snd ?s)) = log w @ added w (snd (snd ?s))"
    by (rule regRead_log)
  moreover note regRead_sent [of this w xfer addr] regRead_this [of xfer addr this w]
  moreover have "fst ?s = push_bit 8 (ucast (snd (last ?fs ! 0))) OR ucast (snd (last ?fs ! 1))"
    by (simp only: v join_bytes_or)
  moreover have "sint (fst ?s) =
      (if 256 * uint (snd (last ?fs ! 0)) + uint (snd (last ?fs ! 1)) < 32768
       then 256 * uint (snd (last ?fs ! 0)) + uint (snd (last ?fs ! 1))
       else 256 * uint (snd (last ?fs ! 0)) + uint (snd (last ?fs ! 1)) - 65536)"
    by (simp only: v sint_int16 uint_join_bytes)
  ultimately show ?thesis
    by (simp only: Let_def split_def)
qed

text \<open>
  On the test double, whose registers hold their own addresses, reading \<open>FNCTIO_CTRL\<close>
  after construction returns 0x0306.
\<close>

lemma regRead_run:
  "regRead mock FNCTIO_CTRL IMU =
     (0x0306, fst IMU\<lparr>currentPage := 3\<rparr>,
      \<lparr>link = \<lparr>dev_page = 3, dev_out = 0x0300, dev_cmd = None\<rparr>,
       log = log (snd IMU) @
         [DigitalWrite 10 LOW, Transfer 0x80 0x00, Transfer 0x03 0x00, DigitalWrite 10 HIGH,
          DelayMicroseconds 5,
          DigitalWrite 10 LOW, Transfer 0x06 0x00, Transfer 0x00 0x00, DigitalWrite 10 HIGH,
          DelayMicroseconds 5,
          DigitalWrite 10 LOW, Transfer 0x00 0x03, Transfer 0x00 0x06, DigitalWrite 10 HIGH,
          DelayMicroseconds 5]\<rparr>)"
  by code_simp

theorem regRead_exchanges_witness:
  "(let (r, this', w') = regRead mock FNCTIO_CTRL IMU in
     sent (frames 10 (added (snd IMU) w')) = [[0x80, 0x03], [0x06, 0x00], [0x00, 0x00]]
   \<and> currentPage this' = 3)"
proof -
  have "pin_CS (fst IMU) = 10" "currentPage (fst IMU) = 0"
       "page_of FNCTIO_CTRL = 3" "offset_of FNCTIO_CTRL = 6"
    by code_simp+
  with regRead_exchanges [of mock FNCTIO_CTRL "fst IMU" "snd IMU"] show ?thesis
    by (simp add: Let_def split_def)
qed

text \<open>
  C2. The page cache. \<open>currentPage\<close> is 0 after construction. Each of \<open>regRead\<close>,
  \<open>regWrite\<close> and \<open>sensorRead\<close>, from every state, sends the page-select frame
  (0x80, page) before its in-page frames exactly when \<open>currentPage\<close> differs from the
  page of the register it accesses (page 0 for \<open>sensorRead\<close>), sends nothing else but
  its in-page frames, and leaves \<open>currentPage\<close> equal to that page and the rest of the
  object as it was. \<open>resetDUT\<close> and \<open>configSPI\<close> leave the object as it was.
\<close>

theorem page_cache_invariant:
  "currentPage (fst (constructor cs dr rst board)) = 0
   \<and> (let (r, this', w') = regRead xfer addr (this, w)
      in this' = this\<lparr>currentPage := ucast (page_of addr)\<rparr>
       \<and> sent (frames (pin_CS this) (added w w')) =
           (if currentPage this = ucast (page_of addr) then [] else [[0x80, page_of addr]])
             @ [[offset_of addr, 0x00], [0x00, 0x00]])
   \<and> (let (r, this', w') = regWrite xfer addr regData (this, w)
      in this' = this\<lparr>currentPage := ucast (page_of addr)\<rparr>
       \<and> sent (frames (pin_CS this) (added w w')) =
           (if currentPage this = ucast (page_of addr) then [] else [[0x80, page_of addr]])
             @ [[0x80 OR offset_of addr, ucast regData],
                [0x80 OR offset_of addr OR 1, ucast (drop_bit 8 regData)]])
   \<and> (let (r, this', w') = sensorRead xfer ALM_STS (this, w)
      in this' = this\<lparr>currentPage := 0\<rparr>
       \<and> sent (frames (pin_CS this) (added w w')) =
           (if currentPage this = 0 then [] else [[0x80, 0x00]])
             @ map (\<lambda>reg. [ucast reg, 0x00])
                 [DIAG_STS, ALM_STS, X_GYRO_OUT, Y_GYRO_OUT, Z_GYRO_OUT,
                  X_ACCL_OUT, Y_ACCL_OUT, Z_ACCL_OUT, TEMP_OUT]
             @ [[0x00, 0x00]])
   \<and> fst (snd (resetDUT ms (this, w))) = this
   \<and> fst (snd (configSPI (this, w))) = this"
proof -
  have "currentPage (fst (constructor cs dr rst board)) = 0"
    by (simp add: constructor_this)
  moreover note regRead_this [of xfer addr this w] regRead_sent [of this w xfer addr]
    regWrite_this [of xfer addr regData this w] regWrite_sent [of this w xfer addr regData]
    sensorRead_this [of xfer ALM_STS this w] sensorRead_sent [of this w xfer ALM_STS]
    resetDUT_this [of ms this w] configSPI_this [of this w]
  ultimately show ?thesis
    by (simp only: Let_def split_def)
qed

text \<open>
  C3. The frames of \<open>regWrite\<close>. Line 159 forms the address of the high frame with
  \<open>addr | 0x100\<close>, which sets bit 0 of the offset; its comment says "increment
  address". The two agree on an even offset (\<open>or_1_even\<close>), and every register of the
  header lies on one. On the odd offset of \<open>regWrite(0x0307, 0x1234)\<close> the high frame
  goes to 0x87 again, the offset of the low frame, and not to 0x88.
\<close>

theorem regWrite_odd_offset:
  "sent (frames 10 (added (snd IMU) (snd (snd (regWrite mock 0x0307 0x1234 IMU))))) =
     [[0x80, 0x03], [0x87, 0x34], [0x87, 0x12]]"
  by code_simp

text \<open>The example of the specification, \<open>regWrite(FNCTIO_CTRL, 0x0C)\<close>, on an even offset.\<close>

lemma regWrite_FNCTIO_CTRL_run:
  "sent (frames 10 (added (snd IMU) (snd (snd (regWrite mock FNCTIO_CTRL 0x0C IMU))))) =
     [[0x80, 0x03], [0x86, 0x0C], [0x87, 0x00]]"
  by code_simp

text \<open>
  C4. The order of the burst. From every state, and so for every prior \<open>currentPage\<close>,
  \<open>sensorRead\<close> returns nine words; it sends the page-select frame (0x80, 0x00) first
  exactly when \<open>currentPage\<close> differs from 0, and leaves \<open>currentPage\<close> at 0. The burst
  frames that follow send, in this order, the addresses of \<open>DIAG_STS\<close>, \<open>ALM_STS\<close>,
  \<open>X_GYRO_OUT\<close>, \<open>Y_GYRO_OUT\<close>, \<open>Z_GYRO_OUT\<close>, \<open>X_ACCL_OUT\<close>, \<open>Y_ACCL_OUT\<close>,
  \<open>Z_ACCL_OUT\<close> and \<open>TEMP_OUT\<close>, then (0x00, 0x00). The word at position k of the
  result is made of the two bytes received in burst frame k + 1, the frame after the one
  that sent the address at position k: it is \<open>(hi << 8) | lo\<close> of the first and the
  second byte, read as a signed 16-bit two's-complement integer.
\<close>

theorem sensorRead_order:
  "(let (r, this', w') = sensorRead xfer ALM_STS (this, w);
        fs = frames (pin_CS this) (added w w');
        burst = drop (if currentPage this = 0 then 0 else 1) fs
    in length r = 9
     \<and> sent fs = (if currentPage this = 0 then [] else [[0x80, 0x00]]) @ sent burst
     \<and> sent burst =
         map (\<lambda>reg. [ucast reg, 0x00])
           [DIAG_STS, ALM_STS, X_GYRO_OUT, Y_GYRO_OUT, Z_GYRO_OUT,
            X_ACCL_OUT, Y_ACCL_OUT, Z_ACCL_OUT, TEMP_OUT]
         @ [[0x00, 0x00]]
     \<and> r = map (\<lambda>f. push_bit 8 (ucast (snd (f ! 0))) OR ucast (snd (f ! 1))) (tl burst)
     \<and> map sint r =
         map (\<lambda>f. if 256 * uint (snd (f ! 0)) + uint (snd (f ! 1)) < 32768
                  then 256 * uint (snd (f ! 0)) + uint (snd (f ! 1))
                  else 256 * uint (snd (f ! 0)) + uint (snd (f ! 1)) - 65536) (tl burst)
     \<and> currentPage this' = 0)"
proof -
  let ?s = "sensorRead xfer ALM_STS (this, w)"
  let ?fs = "frames (pin_CS this) (added w (snd (snd ?s)))"
  let ?burst = "drop (if currentPage this = 0 then 0 else 1) ?fs"
  have b: "sent ?burst =
      map (\<lambda>reg. [ucast reg, 0x00])
        [DIAG_STS, ALM_STS, X_GYRO_OUT, Y_GYRO_OUT, Z_GYRO_OUT, X_ACCL_OUT, Y_ACCL_OUT, Z_ACCL_OUT, TEMP_OUT]
      @ [[0x00, 0x00]]"
    by (rule sensorRead_burst_sent)
  have v: "fst ?s = map frame_word (tl ?burst)"
    by (rule sensorRead_value)
  have "length (fst ?s) = 9"
    by (rule sensorRead_length)
  moreover have "sent ?fs = (if currentPage this = 0 then [] else [[0x80, 0x00]]) @ sent ?burst"
    by (simp only: b sensorRead_sent)
  moreover note b
  moreover have "fst ?s =
      map (\<lambda>f. push_bit 8 (ucast (snd (f ! 0))) OR ucast (snd (f ! 1))) (tl ?burst)"
  proof -
    have "frame_word = (\<lambda>f. push_bit 8 (ucast (snd (f ! 0))) OR ucast (snd (f ! 1)))"
      by (rule ext) (rule frame_word_or)
    then show ?thesis
      by (simp only: v)
  qed
  moreover have "map sint (fst ?s) =
      map (\<lambda>f. if 256 * uint (snd (f ! 0)) + uint (snd (f ! 1)) < 32768
               then 256 * uint (snd (f ! 0)) + uint (snd (f ! 1))
               else 256 * uint (snd (f ! 0)) + uint (snd (f ! 1)) - 65536) (tl ?burst)"
    by (simp only: v map_map comp_def sint_frame_word)
  moreover have "currentPage (fst (snd ?s)) = 0"
    by (simp add: sensorRead_this)
  ultimately show ?thesis
    by (simp only: Let_def split_def)
qed

text \<open>
  On the test double, whose registers hold their own addresses, with 0x000C for
  \<open>ALM_STS\<close>: each position of the result holds the register of that position.
\<close>

lemma sensorRead_run:
  "fst (sensorRead mock 0x000C IMU) =
     [0x000A, 0x000C, 0x0012, 0x0016, 0x001A, 0x001E, 0x0022, 0x0026, 0x000E]"
  by code_simp

text \<open>
  C5 as stated fails on page 0: a fresh driver that reads \<open>DIAG_STS\<close> sends no frame
  that writes \<open>PAGE_ID\<close>, not one.
\<close>

theorem same_page_no_select:
  "length (page_select_frames (sent (frames 10
      (added (snd (constructor 10 2 6 power_on))
         (snd (run mock [RegRead DIAG_STS] (constructor 10 2 6 power_on))))))) \<noteq> 1"
  by code_simp

text \<open>
  C5, as amended. For every sequence of \<open>regRead\<close> and \<open>regWrite\<close> operations whose
  addresses all lie on one page p, run on a freshly constructed driver, the frames sent
  are the page-select frame (0x80, p) once, first, when p is not 0 and the sequence is
  not empty, and no page-select frame when p is 0; they are followed by the in-page
  frames of the operations, in order, and by nothing else.
\<close>

theorem same_page_sequence:
  "list_all (\<lambda>op. page_of (target op) = p) ops \<Longrightarrow>
     (let (this0, w0) = constructor cs dr rst board;
          (this', w') = run xfer ops (this0, w0)
      in sent (frames cs (added w0 w')) =
           (if p = 0 \<or> ops = [] then [] else [[0x80, p]]) @ concat (map access ops))"
proof -
  assume same: "list_all (\<lambda>op. page_of (target op) = p) ops"
  let ?t0 = "fst (constructor cs dr rst board :: ADIS16490 \<times> 'a world)"
  let ?w0 = "snd (constructor cs dr rst board :: ADIS16490 \<times> 'a world)"
  have "sent (frames (pin_CS ?t0) (added ?w0 (snd (run xfer ops (?t0, ?w0))))) =
      (if currentPage ?t0 = ucast p \<or> ops = [] then [] else [[0x80, p]])
        @ concat (map access ops)"
    using run_same_page [OF same, of xfer ?t0 ?w0] by blast
  then have "sent (frames cs (added ?w0 (snd (run xfer ops (?t0, ?w0))))) =
      (if p = 0 \<or> ops = [] then [] else [[0x80, p]]) @ concat (map access ops)"
    by (simp only: constructor_fresh zero_is_page)
  then show ?thesis
    by (simp only: Let_def split_def prod.collapse)
qed

theorem same_page_sequence_witness:
  "list_all (\<lambda>op. page_of (target op) = 3)
     [RegWrite FNCTIO_CTRL 0x0C, RegWrite DEC_RATE 0x00, RegRead FNCTIO_CTRL, RegRead DEC_RATE]
   \<and> (let (this0, w0) = constructor 10 2 6 power_on;
          (this', w') = run mock
            [RegWrite FNCTIO_CTRL 0x0C, RegWrite DEC_RATE 0x00, RegRead FNCTIO_CTRL, RegRead DEC_RATE]
            (this0, w0)
      in sent (frames 10 (added w0 w')) =
           [[0x80, 0x03], [0x86, 0x0C], [0x87, 0x00], [0x8C, 0x00], [0x8D, 0x00],
            [0x06, 0x00], [0x00, 0x00], [0x0C, 0x00], [0x00, 0x00]])"
proof -
  let ?ops = "[RegWrite FNCTIO_CTRL 0x0C, RegWrite DEC_RATE 0x00, RegRead FNCTIO_CTRL, RegRead DEC_RATE]"
  have same: "list_all (\<lambda>op. page_of (target op) = 3) ?ops"
    by code_simp
  have rhs: "(if (3 :: uint8_t) = 0 \<or> ?ops = [] then [] else [[0x80, 3]]) @ concat (map access ?ops) =
      [[0x80, 0x03], [0x86, 0x0C], [0x87, 0x00], [0x8C, 0x00], [0x8D, 0x00],
       [0x06, 0x00], [0x00, 0x00], [0x0C, 0x00], [0x00, 0x00]]"
    by code_simp
  from same_page_sequence [OF same, of 10 2 6 power_on mock] same show ?thesis
    by (simp only: rhs simp_thms)
qed

text \<open>
  C6. From every state: when the pages of a1 and a2 differ, the frames of \<open>regRead\<close> of
  a2 after \<open>regRead\<close> of a1 are the page-select frame for the page of a2, then the
  address frame of a2, then the data frame. When a1 is read twice in a row, a page-select
  frame comes, if at all, before the address frame of the first read, and the second read
  sends its address frame and its data frame only.
\<close>

theorem regRead_page_switch:
  "(page_of a1 \<noteq> page_of a2 \<longrightarrow>
      (let (r1, this1, w1) = regRead xfer a1 (this, w);
           (r2, this2, w2) = regRead xfer a2 (this1, w1)
       in sent (frames (pin_CS this) (added w1 w2)) =
            [[0x80, page_of a2], [offset_of a2, 0x00], [0x00, 0x00]]))
   \<and> (let (r1, this1, w1) = regRead xfer a1 (this, w);
           (r2, this2, w2) = regRead xfer a1 (this1, w1)
       in sent (frames (pin_CS this) (added w w1)) =
            (if currentPage this = ucast (page_of a1) then [] else [[0x80, page_of a1]])
              @ [[offset_of a1, 0x00], [0x00, 0x00]]
        \<and> sent (frames (pin_CS this) (added w1 w2)) = [[offset_of a1, 0x00], [0x00, 0x00]])"
proof -
  let ?s1 = "regRead xfer a1 (this, w)"
  let ?this1 = "fst (snd ?s1)"
  let ?w1 = "snd (snd ?s1)"
  have this1: "?this1 = this\<lparr>currentPage := ucast (page_of a1)\<rparr>"
    by (rule regRead_this)
  have cs: "pin_CS ?this1 = pin_CS this" and cp: "currentPage ?this1 = ucast (page_of a1)"
    by (simp_all add: this1)
  have second: "sent (frames (pin_CS this) (added ?w1 (snd (snd (regRead xfer b (snd ?s1)))))) =
      (if page_of a1 = page_of b then [] else [[0x80, page_of b]])
        @ [[offset_of b, 0x00], [0x00, 0x00]]" for b
    using regRead_sent [of ?this1 ?w1 xfer b] by (simp only: cs cp ucast_8_32_inj prod.collapse)
  have "page_of a1 \<noteq> page_of a2 \<longrightarrow>
      sent (frames (pin_CS this) (added ?w1 (snd (snd (regRead xfer a2 (snd ?s1)))))) =
        [[0x80, page_of a2], [offset_of a2, 0x00], [0x00, 0x00]]"
    by (simp add: second)
  moreover have "sent (frames (pin_CS this) (added w ?w1)) =
      (if currentPage this = ucast (page_of a1) then [] else [[0x80, page_of a1]])
        @ [[offset_of a1, 0x00], [0x00, 0x00]]"
    by (rule regRead_sent)
  moreover have "sent (frames (pin_CS this) (added ?w1 (snd (snd (regRead xfer a1 (snd ?s1)))))) =
      [[offset_of a1, 0x00], [0x00, 0x00]]"
    by (simp add: second)
  ultimately show ?thesis
    by (simp only: Let_def split_def prod.collapse simp_thms)
qed

theorem regRead_page_switch_witness:
  "page_of FNCTIO_CTRL \<noteq> page_of DIAG_STS
   \<and> (let (r1, this1, w1) = regRead mock FNCTIO_CTRL IMU;
           (r2, this2, w2) = regRead mock DIAG_STS (this1, w1)
       in sent (frames (pin_CS (fst IMU)) (added w1 w2)) =
            [[0x80, page_of DIAG_STS], [offset_of DIAG_STS, 0x00], [0x00, 0x00]])"
proof -
  have differ: "page_of FNCTIO_CTRL \<noteq> page_of DIAG_STS"
    by code_simp
  from regRead_page_switch [of FNCTIO_CTRL DIAG_STS mock "fst IMU" "snd IMU"] differ
  show ?thesis
    by (simp only: prod.collapse simp_thms)
qed

text \<open>
  C7 as stated fails: the burst is ten frames, not 1 + 8. On a fresh driver, which sends
  no page-select frame, \<open>sensorRead\<close> sends ten frames in all.
\<close>

theorem sensorRead_ten_frames:
  "length (frames 10 (added (snd IMU) (snd (snd (sensorRead mock 0x000C IMU))))) = 10
   \<and> length (frames 10 (added (snd IMU) (snd (snd (sensorRead mock 0x000C IMU))))) \<noteq> 1 + 8"
  by code_simp

text \<open>
  C7, as amended. From every state, the burst of \<open>sensorRead\<close> is 1 + 9 frames, not
  counting a page-select frame: one frame that sends the address of \<open>DIAG_STS\<close>, then
  nine further frames, each of which clocks in the data of the register before it. The
  first eight of the nine clock out the address of the next register, \<open>ALM_STS\<close> to
  \<open>TEMP_OUT\<close>; the ninth sends (0x00, 0x00).
\<close>

theorem burst_is_ten_frames:
  "(let (r, this', w') = sensorRead xfer ALM_STS (this, w);
        fs = frames (pin_CS this) (added w w');
        burst = drop (if currentPage this = 0 then 0 else 1) fs
    in length burst = 1 + 9
     \<and> sent (take 1 burst) = [[ucast DIAG_STS, 0x00]]
     \<and> sent (take 8 (drop 1 burst)) =
         map (\<lambda>reg. [ucast reg, 0x00])
           [ALM_STS, X_GYRO_OUT, Y_GYRO_OUT, Z_GYRO_OUT, X_ACCL_OUT, Y_ACCL_OUT, Z_ACCL_OUT, TEMP_OUT]
     \<and> sent (drop 9 burst) = [[0x00, 0x00]]
     \<and> r = map frame_word (drop 1 burst))"
proof -
  let ?s = "sensorRead xfer ALM_STS (this, w)"
  define burst where "burst = drop (if currentPage this = 0 then 0 else 1)
     (frames (pin_CS this) (added w (snd (snd ?s))))"
  have b: "sent burst =
      map (\<lambda>reg. [ucast reg, 0x00])
        [DIAG_STS, ALM_STS, X_GYRO_OUT, Y_GYRO_OUT, Z_GYRO_OUT, X_ACCL_OUT, Y_ACCL_OUT, Z_ACCL_OUT, TEMP_OUT]
      @ [[0x00, 0x00]]"
    unfolding burst_def by (rule sensorRead_burst_sent)
  have t: "sent (take n fs) = take n (sent fs)" and d: "sent (drop n fs) = drop n (sent fs)"
    for n and fs :: "(uint8_t \<times> uint8_t) list list"
    by (simp_all add: sent_def take_map drop_map)
  have "length (sent burst) = 1 + 9"
    by (simp only: b) simp
  then have "length burst = 1 + 9"
    by (simp add: sent_def)
  moreover have "sent (take 1 burst) = [[ucast DIAG_STS, 0x00]]"
    by (simp only: t b) simp
  moreover have "sent (take 8 (drop 1 burst)) =
      map (\<lambda>reg. [ucast reg, 0x00])
        [ALM_STS, X_GYRO_OUT, Y_GYRO_OUT, Z_GYRO_OUT, X_ACCL_OUT, Y_ACCL_OUT, Z_ACCL_OUT, TEMP_OUT]"
    by (simp only: t d b) simp
  moreover have "sent (drop 9 burst) = [[0x00, 0x00]]"
    by (simp only: d b) simp
  moreover have "fst ?s = map frame_word (drop 1 burst)"
    unfolding burst_def using sensorRead_value [of xfer ALM_STS this w] by (simp add: drop_Suc)
  ultimately show ?thesis
    unfolding burst_def by (simp only: Let_def split_def)
qed

text \<open>
  C8 as stated fails: the functions compute in binary floating point, and \<open>gyroScale\<close>
  of 1 is the \<open>float\<close> 5368709 / 2^30, not 0.005.
\<close>

theorem gyroScale_inexact:
  "gyroScale 1 = 5368709 / 1073741824
   \<and> gyroScale 1 \<noteq> of_int (sint (1 :: 16 word)) * (5 / 1000)"
proof -
  have "gyroScale 1 = 5368709 / 1073741824"
    by code_simp
  moreover have "gyroScale 1 \<noteq> of_int (sint (1 :: 16 word)) * (5 / 1000)"
    by code_simp
  ultimately show ?thesis
    by (simp only: simp_thms)
qed

text \<open>
  C8, as amended. Each of the five scaling functions is a function of its 16-bit sample
  alone, defined for every sample. \<open>accelScale\<close> returns the sample times 0.5 exactly.
  \<open>gyroScale\<close>, \<open>deltaAngleScale\<close> and \<open>deltaVelocityScale\<close> return the sample times
  0.005, 0.022 and 6.104 up to a relative error of \<open>2^-23\<close>, and \<open>tempScale\<close> returns
  the sample times 0.01429 plus 25 up to \<open>2^-23\<close> of the sum of the magnitudes of the
  two terms. \<open>gyroScale\<close> of 100 is 0.5, of -100 is -0.5, and \<open>tempScale\<close> of 0 is 25,
  all three exactly.
\<close>

theorem scaling_rounded:
  "accelScale raw = of_int (sint raw) * (5 / 10)
   \<and> \<bar>gyroScale raw - of_int (sint raw) * (5 / 1000)\<bar>
       \<le> \<bar>of_int (sint raw) * (5 / 1000)\<bar> / 2 ^ 23
   \<and> \<bar>tempScale raw - (of_int (sint raw) * (1429 / 100000) + 25)\<bar>
       \<le> (\<bar>of_int (sint raw) * (1429 / 100000)\<bar> + 25) / 2 ^ 23
   \<and> \<bar>deltaAngleScale raw - of_int (sint raw) * (22 / 1000)\<bar>
       \<le> \<bar>of_int (sint raw) * (22 / 1000)\<bar> / 2 ^ 23
   \<and> \<bar>deltaVelocityScale raw - of_int (sint raw) * (6104 / 1000)\<bar>
       \<le> \<bar>of_int (sint raw) * (6104 / 1000)\<bar> / 2 ^ 23
   \<and> gyroScale 100 = 1 / 2
   \<and> gyroScale (- 100) = - 1 / 2
   \<and> tempScale 0 = 25"
proof -
  have "accelScale raw = of_int (sint raw) * (5 / 10)"
    by (simp add: accelScale_exact)
  moreover have "\<bar>gyroScale raw - of_int (sint raw) * (5 / 1000)\<bar>
      \<le> \<bar>of_int (sint raw) * (5 / 1000)\<bar> / 2 ^ 23"
    unfolding gyroScale_def by (rule scale_error)
  moreover have "\<bar>tempScale raw - (of_int (sint raw) * (1429 / 100000) + 25)\<bar>
      \<le> (\<bar>of_int (sint raw) * (1429 / 100000)\<bar> + 25) / 2 ^ 23"
    unfolding tempScale_def by (rule offset_error)
  moreover have "\<bar>deltaAngleScale raw - of_int (sint raw) * (22 / 1000)\<bar>
      \<le> \<bar>of_int (sint raw) * (22 / 1000)\<bar> / 2 ^ 23"
    unfolding deltaAngleScale_def by (rule scale_error)
  moreover have "\<bar>deltaVelocityScale raw - of_int (sint raw) * (6104 / 1000)\<bar>
      \<le> \<bar>of_int (sint raw) * (6104 / 1000)\<bar> / 2 ^ 23"
    unfolding deltaVelocityScale_def by (rule scale_error)
  moreover have "gyroScale 100 = 1 / 2"
    by code_simp
  moreover have "gyroScale (- 100) = - 1 / 2"
    by code_simp
  moreover have "tempScale 0 = 25"
    by code_simp
  ultimately show ?thesis
    by (simp only: simp_thms)
qed

text \<open>The fourth example of the specification: \<open>tempScale\<close> of 1000 is about 39.29.\<close>

lemma tempScale_1000: "tempScale 1000 = 5149819 / 131072"
  by code_simp

text \<open>
  C9. For every address, every data value, every state and every link, \<open>regWrite\<close>
  returns 1; the frames it sends are the page-select frame when needed and its two write
  frames, so nothing is read back. \<open>sensorRead\<close> returns nine words whatever the link
  answers, and every 16-bit value is a result of \<open>regRead\<close> for some answer of the link:
  no value is set apart to report a failure. The three functions are total and return
  plain values.
\<close>

theorem no_failure_reported:
  "fst (regWrite xfer addr regData (this, w)) = 1
   \<and> sent (frames (pin_CS this) (added w (snd (snd (regWrite xfer addr regData (this, w)))))) =
       (if currentPage this = ucast (page_of addr) then [] else [[0x80, page_of addr]])
         @ [[0x80 OR offset_of addr, ucast regData],
            [0x80 OR offset_of addr OR 1, ucast (drop_bit 8 regData)]]
   \<and> length (fst (sensorRead xfer ALM_STS (this, w))) = 9
   \<and> (\<exists>script. fst (regRead scripted addr (this, w\<lparr>link := script\<rparr>)) = v)"
  using regWrite_value [of xfer addr regData "(this, w)"] regWrite_sent [of this w xfer addr regData]
    sensorRead_length [of xfer ALM_STS "(this, w)"] regRead_any_value [of addr this w v]
  by (simp only: simp_thms)

text \<open>
  C10. \<open>resetDUT(100)\<close> on the driver of the sketches: the reset pin is low for the
  fixed 500 microseconds of line 72, and the 100 ms of the caller pass after the pin is
  high again. The comment above the function says the pin is set low "for delay (in ms)".
  The function returns 1.
\<close>

theorem resetDUT_low_time:
  "added (snd IMU) (snd (snd (resetDUT 100 IMU))) =
     [DigitalWrite 6 LOW, DelayMicroseconds 500, DigitalWrite 6 HIGH, Delay 100]
   \<and> fst (resetDUT 100 IMU) = 1"
  by code_simp

end
